theory Spec2Isabelle
  imports Main "HOL-Library.Word" "HOL-Library.Sublist"
begin

section \<open>libdevcore/Log.cpp: data model\<close>

text \<open>
  The logging core of libdevcore keeps a global verbosity (\<open>int g_logVerbosity\<close>), a
  file-local override table (\<open>map<type_info const*, bool> s_logOverride\<close>) and two
  thread-local objects: the name slot \<open>ThreadLocalLogName::name\<close> and the context stack
  \<open>logContexts\<close>. Thread-local storage is a function of the thread; the calling thread is
  an explicit argument \<open>self\<close> of every operation that reads or writes it.
\<close>

type_synonym thread_id = nat

text \<open>A channel is identified by the address of its \<open>std::type_info\<close> object.\<close>

type_synonym type_info = nat

text \<open>The only failure of the C++ library that the file can run into.\<close>

datatype fault = UndefinedBehaviour

text \<open>
  A \<open>char const*\<close> points either to a string literal, whose characters never change,
  or into memory that the caller owns and may write later. \<open>memory\<close> gives, for an
  address, the bytes found from there on.
\<close>

datatype char_ptr = String_literal string | Address nat

record 'os log_state =
  g_logVerbosity :: "32 word"
  s_logOverride :: "type_info \<rightharpoonup> bool"
  ThreadLocalLogName_name :: "thread_id \<Rightarrow> char_ptr option"
  logContexts :: "thread_id \<Rightarrow> string list"
  os_threads :: 'os
  memory :: "nat \<Rightarrow> char list"

section \<open>The emit decision\<close>

text \<open>
  The condition of \<open>LogOutputStreamBase::LogOutputStreamBase\<close>:
  \<^verbatim>\<open>auto it = s_logOverride.find(_info);
  if ((it != s_logOverride.end() && it->second) ||
      (it == s_logOverride.end() && (int)_v <= g_logVerbosity))\<close>
  \<open>find\<close> returning \<open>end()\<close> is \<open>None\<close>; \<open>_v\<close> is \<open>unsigned\<close> and is read as an
  \<open>int\<close> by the cast, \<open>g_logVerbosity\<close> is an \<open>int\<close>: both are 32-bit words read by
  \<open>sint\<close>.
\<close>

definition should_emit :: "(type_info \<rightharpoonup> bool) \<Rightarrow> 32 word \<Rightarrow> type_info \<Rightarrow> 32 word \<Rightarrow> bool" where
  "should_emit override g info v =
     (let it = override info
      in (it \<noteq> None \<and> the it) \<or> (it = None \<and> sint v \<le> sint g))"

section \<open>The thread-local context stack\<close>

text \<open>\<open>std::vector::pop_back\<close> on an empty vector is undefined behaviour.\<close>

definition push_back :: "'a list \<Rightarrow> 'a \<Rightarrow> 'a list" where
  "push_back v x = v @ [x]"

definition pop_back :: "'a list \<Rightarrow> fault + 'a list" where
  "pop_back v = (if v = [] then Inl UndefinedBehaviour else Inr (butlast v))"

text \<open>
  \<open>ThreadLocalLogContext::push\<close>, \<open>pop\<close> and \<open>join\<close>, on the calling thread's
  \<open>logContexts\<close>. \<open>join\<close> is the loop
  \<^verbatim>\<open>string ret; for (auto const& i: logContexts) ret += _prior + i; return ret;\<close>
\<close>

definition ThreadLocalLogContext_push :: "string \<Rightarrow> string list \<Rightarrow> string list" where
  "ThreadLocalLogContext_push name ctxs = push_back ctxs name"

definition ThreadLocalLogContext_pop :: "string list \<Rightarrow> fault + string list" where
  "ThreadLocalLogContext_pop ctxs = pop_back ctxs"

fun join_loop :: "string \<Rightarrow> string list \<Rightarrow> string \<Rightarrow> string" where
  "join_loop prior [] ret = ret"
| "join_loop prior (i # rest) ret = join_loop prior rest (ret @ (prior @ i))"

definition ThreadLocalLogContext_join :: "string \<Rightarrow> string list \<Rightarrow> string" where
  "ThreadLocalLogContext_join prior ctxs = join_loop prior ctxs []"

text \<open>
  \<open>dev::ThreadContext::push\<close>, \<open>pop\<close> and \<open>join\<close> forward to the global
  \<open>g_logThreadContext\<close>; they return the state they leave behind.
\<close>

definition ThreadContext_push :: "thread_id \<Rightarrow> string \<Rightarrow> 'os log_state \<Rightarrow> 'os log_state" where
  "ThreadContext_push self n st =
     st\<lparr>logContexts := (logContexts st)(self := ThreadLocalLogContext_push n (logContexts st self))\<rparr>"

definition ThreadContext_pop :: "thread_id \<Rightarrow> 'os log_state \<Rightarrow> fault + 'os log_state" where
  "ThreadContext_pop self st =
     (case ThreadLocalLogContext_pop (logContexts st self) of
        Inl e \<Rightarrow> Inl e
      | Inr ctxs \<Rightarrow> Inr (st\<lparr>logContexts := (logContexts st)(self := ctxs)\<rparr>))"

definition ThreadContext_join :: "thread_id \<Rightarrow> string \<Rightarrow> 'os log_state \<Rightarrow> string \<times> 'os log_state" where
  "ThreadContext_join self prior st =
     (ThreadLocalLogContext_join prior (logContexts st self), st)"

section \<open>Thread names\<close>

text \<open>
  \<open>getThreadName\<close> and \<open>setThreadName\<close> are compiled in one of three ways
  (\<open>__linux__\<close>, \<open>__APPLE__\<close>, neither). The pthread calls and the C library's clock are
  not code of this file: they are fields of the host the program runs on. \<open>'os\<close> is the
  operating system's own state; \<open>pthread_getname_np h os t len\<close> is the content of the
  128-byte buffer after the call; \<open>strftime_localtime h size fmt t\<close> is the result of
  \<open>strftime(buf, size, fmt, localtime(&t))\<close>: the returned count and the content of
  \<open>buf\<close> after the call.
\<close>

datatype platform = Linux | Apple | Other

record 'os host =
  platform :: platform
  pthread_setname_np :: "'os \<Rightarrow> thread_id \<Rightarrow> string \<Rightarrow> 'os"
  pthread_getname_np :: "'os \<Rightarrow> thread_id \<Rightarrow> nat \<Rightarrow> char list"
  system_clock_now :: int
  strftime_localtime :: "nat \<Rightarrow> string \<Rightarrow> int \<Rightarrow> nat \<times> char list"

text \<open>A \<open>char\<close> array read as a C string: the bytes before the first \<open>'\0'\<close>.\<close>

definition NUL :: char where
  "NUL = CHR 0x00"

definition c_string :: "char list \<Rightarrow> string" where
  "c_string buf = takeWhile (\<lambda>c. c \<noteq> NUL) buf"

text \<open>
  The \<open>std::string\<close> built from a \<open>char const*\<close>: the C string found there when it is
  read. The compiler ends a literal with a NUL.
\<close>

definition string_at :: "(nat \<Rightarrow> char list) \<Rightarrow> char_ptr \<Rightarrow> string" where
  "string_at mem p =
     (case p of
        String_literal s \<Rightarrow> c_string (s @ [NUL])
      | Address a \<Rightarrow> c_string (mem a))"

text \<open>
  \<open>ThreadLocalLogName::ThreadLocalLogName(char const* _name) { name = _name; }\<close> writes
  the slot of the thread that runs it. The slot holds the pointer, not a copy of the
  characters (\<open>None\<close> is the null pointer).
\<close>

definition ThreadLocalLogName_ctor :: "thread_id \<Rightarrow> char_ptr \<Rightarrow> 'os log_state \<Rightarrow> 'os log_state" where
  "ThreadLocalLogName_ctor self name st =
     st\<lparr>ThreadLocalLogName_name := (ThreadLocalLogName_name st)(self := Some name)\<rparr>"

definition getThreadName :: "'os host \<Rightarrow> thread_id \<Rightarrow> 'os log_state \<Rightarrow> string" where
  "getThreadName h self st =
     (if platform h = Linux \<or> platform h = Apple then
        (let buffer = pthread_getname_np h (os_threads st) self 127;
             buffer = buffer[127 := NUL]
         in c_string buffer)
      else
        string_at (memory st)
          (case ThreadLocalLogName_name st self of
             Some name \<Rightarrow> name
           | None \<Rightarrow> String_literal ''<unknown>''))"

text \<open>
  \<open>setThreadName(char const* _n)\<close>: the system reads the C string at \<open>_n\<close> during the
  call; the thread-local slot keeps the pointer itself.
\<close>

definition setThreadName :: "'os host \<Rightarrow> thread_id \<Rightarrow> char_ptr \<Rightarrow> 'os log_state \<Rightarrow> 'os log_state" where
  "setThreadName h self n st =
     (if platform h = Linux then
        st\<lparr>os_threads := pthread_setname_np h (os_threads st) self (string_at (memory st) n)\<rparr>
      else if platform h = Apple then
        st\<lparr>os_threads := pthread_setname_np h (os_threads st) self (string_at (memory st) n)\<rparr>
      else
        st\<lparr>ThreadLocalLogName_name := (ThreadLocalLogName_name st)(self := Some n)\<rparr>)"

section \<open>The state at process start\<close>

text \<open>
  Static initialisation: \<open>int dev::g_logVerbosity = 5\<close>, an empty \<open>s_logOverride\<close>,
  a null \<open>ThreadLocalLogName::name\<close> and an empty \<open>logContexts\<close> in every thread,
  then \<open>ThreadLocalLogName g_logThreadName("main")\<close>, constructed by the initial thread.
  No caller has put anything into memory yet.
\<close>

definition initial_state :: "thread_id \<Rightarrow> 'os \<Rightarrow> 'os log_state" where
  "initial_state main_thread os0 =
     ThreadLocalLogName_ctor main_thread (String_literal ''main'')
       \<lparr>g_logVerbosity = 5,
        s_logOverride = Map.empty,
        ThreadLocalLogName_name = (\<lambda>t. None),
        logContexts = (\<lambda>t. []),
        os_threads = os0,
        memory = (\<lambda>a. [])\<rparr>"

section \<open>The constructor of a log statement\<close>

text \<open>
  The colour macros of the terminal header, which the file concatenates with its
  literals, are parameters.
\<close>

record colours =
  EthReset :: string
  EthBlack :: string
  EthNavy :: string
  EthTeal :: string
  EthViolet :: string

record LogOutputStreamBase =
  m_autospacing :: bool
  m_verbosity :: "32 word"
  m_sstr :: string

text \<open>
  The four static locals of the constructor: \<open>c_begin = "  " EthViolet\<close>,
  \<open>c_sep1 = EthReset EthBlack "|" EthNavy\<close>, \<open>c_sep2 = EthReset EthBlack "|" EthTeal\<close>
  and \<open>c_end = EthReset "  "\<close> (adjacent literals concatenate).
\<close>

definition c_begin :: "colours \<Rightarrow> string" where
  "c_begin col = ''  '' @ EthViolet col"

definition c_sep1 :: "colours \<Rightarrow> string" where
  "c_sep1 col = EthReset col @ EthBlack col @ ''|'' @ EthNavy col"

definition c_sep2 :: "colours \<Rightarrow> string" where
  "c_sep2 col = EthReset col @ EthBlack col @ ''|'' @ EthTeal col"

definition c_end :: "colours \<Rightarrow> string" where
  "c_end col = EthReset col @ ''  ''"

text \<open>
  What the functions of the file do besides computing: the calls they make and the
  writes to the statement's buffer and to \<open>cerr\<close>, in the order of the source.
  \<open>Update_s_logOverride\<close> is the write of an override operation.
\<close>

datatype event =
    Lock_x_logOverride
  | Unlock_x_logOverride
  | Find_s_logOverride type_info
  | Update_s_logOverride type_info
  | Call_system_clock_now
  | Call_strftime
  | Call_getThreadName
  | Call_ThreadContext_join
  | Write_m_sstr
  | Lock_s_lock
  | Unlock_s_lock
  | Write_cerr
  | Call_OutputDebugStringA

text \<open>
  \<open>Guard l(x_logOverride);\<close> locks the mutex where it is declared and unlocks it where
  the enclosing block ends: the events of the rest of the block happen in between.
\<close>

definition Guard_x_logOverride :: "'a \<times> event list \<Rightarrow> 'a \<times> event list" where
  "Guard_x_logOverride block =
     (fst block, [Lock_x_logOverride] @ snd block @ [Unlock_x_logOverride])"

text \<open>
  The buffer \<open>m_sstr\<close> with the events so far: \<open>m_sstr << s\<close> appends \<open>s\<close>, and a call
  made for an operand of \<open><<\<close> happens after the writes to its left.
\<close>

definition put :: "string \<Rightarrow> string \<times> event list \<Rightarrow> string \<times> event list" where
  "put s out = (fst out @ s, snd out @ [Write_m_sstr])"

definition call :: "event \<Rightarrow> string \<times> event list \<Rightarrow> string \<times> event list" where
  "call e out = (fst out, snd out @ [e])"

text \<open>
  The guard is the first statement of the constructor's body, so the block it covers
  is the whole body: the lookup, the condition and the branch that formats the prefix,
  \<^verbatim>\<open>m_sstr << _id << c_begin << buf << c_sep1 << getThreadName()
         << ThreadContext::join(c_sep2) << c_end;\<close>
\<close>

definition LogOutputStreamBase_ctor ::
  "colours \<Rightarrow> 'os host \<Rightarrow> thread_id \<Rightarrow> 'os log_state \<Rightarrow>
   string \<Rightarrow> type_info \<Rightarrow> 32 word \<Rightarrow> bool \<Rightarrow> LogOutputStreamBase \<times> event list" where
  "LogOutputStreamBase_ctor col h self st ident info v autospacing =
     Guard_x_logOverride
       (if should_emit (s_logOverride st) (g_logVerbosity st) info v then
          (let rawTime = system_clock_now h;
               (ret, buf) = strftime_localtime h 24 ''%X'' rawTime;
               buf = (if ret = 0 then buf[0 := NUL] else buf);
               out = ([], [Find_s_logOverride info, Call_system_clock_now, Call_strftime]);
               out = put ident out;
               out = put (c_begin col) out;
               out = put (c_string buf) out;
               out = put (c_sep1 col) out;
               out = put (getThreadName h self st) (call Call_getThreadName out);
               out = put (fst (ThreadContext_join self (c_sep2 col) st))
                       (call Call_ThreadContext_join out);
               out = put (c_end col) out
           in (\<lparr>m_autospacing = autospacing, m_verbosity = v, m_sstr = fst out\<rparr>, snd out))
        else
          (\<lparr>m_autospacing = autospacing, m_verbosity = v, m_sstr = []\<rparr>,
           [Find_s_logOverride info]))"

text \<open>The events of a trace that happen while \<open>x_logOverride\<close> is held.\<close>

fun held :: "bool \<Rightarrow> event list \<Rightarrow> event list" where
  "held locked [] = []"
| "held locked (Lock_x_logOverride # es) = held True es"
| "held locked (Unlock_x_logOverride # es) = held False es"
| "held locked (e # es) = (if locked then e # held locked es else held locked es)"

definition held_events :: "event list \<Rightarrow> event list" where
  "held_events tr = held False tr"

fun is_map_access :: "event \<Rightarrow> bool" where
  "is_map_access (Find_s_logOverride k) = True"
| "is_map_access e = False"

section \<open>The default sink\<close>

text \<open>
  \<open>g_logPost\<close> is initialised to \<open>simpleDebugOut\<close>, which takes its own lock:
  \<^verbatim>\<open>static SpinLock s_lock; SpinGuard l(s_lock); cerr << _s << endl << flush;\<close>
  and, when built for Windows, hands the line and a newline to \<open>OutputDebugStringA\<close>.
  It returns what \<open>cerr\<close> has received.
\<close>

definition SpinGuard_s_lock :: "'a \<times> event list \<Rightarrow> 'a \<times> event list" where
  "SpinGuard_s_lock block = (fst block, [Lock_s_lock] @ snd block @ [Unlock_s_lock])"

definition simpleDebugOut :: "bool \<Rightarrow> string \<Rightarrow> string \<Rightarrow> string \<times> event list" where
  "simpleDebugOut win32 s cerr =
     SpinGuard_s_lock
       (cerr @ s @ [CHR ''\<newline>''],
        Write_cerr #
          (if win32 then [Call_OutputDebugStringA, Call_OutputDebugStringA] else []))"

section \<open>Operations the sources do not contain\<close>

text \<open>
  Modelled from the spec: \<open>override(channelKind, enabled)\<close> of section 4.1, which
  "installs or replaces the entry for channelKind". Log.cpp declares the table and reads
  it; no function of the sources writes it.
\<close>

definition override :: "type_info \<Rightarrow> bool \<Rightarrow> 'os log_state \<Rightarrow> 'os log_state" where
  "override channelKind enabled st =
     st\<lparr>s_logOverride := (s_logOverride st)(channelKind \<mapsto> enabled)\<rparr>"

text \<open>
  Modelled from the spec: \<open>clearOverride(channelKind)\<close> of section 4.1, which "removes
  the entry, reverting to verbosity-threshold behavior". No function of the sources
  erases an entry of the table.
\<close>

definition clearOverride :: "type_info \<Rightarrow> 'os log_state \<Rightarrow> 'os log_state" where
  "clearOverride channelKind st =
     st\<lparr>s_logOverride := (s_logOverride st)(channelKind := None)\<rparr>"

text \<open>
  Modelled from the spec: the completion of a log statement (section 4.4): the caller
  appends the message text to the prefix and, at the end of the statement, "if the
  statement was going to emit, hand the fully composed string to the current Output Sink
  along with the raw channel id; otherwise do nothing". The destructor that does so is
  in the header, which is not among the sources. The sink is the list of the calls it
  has received.
\<close>

definition log_statement ::
  "colours \<Rightarrow> 'os host \<Rightarrow> thread_id \<Rightarrow> 'os log_state \<Rightarrow>
   string \<Rightarrow> type_info \<Rightarrow> 32 word \<Rightarrow> bool \<Rightarrow> string \<Rightarrow>
   (string \<times> string) list \<Rightarrow> (string \<times> string) list" where
  "log_statement col h self st ident info v autospacing message sink =
     (let s = fst (LogOutputStreamBase_ctor col h self st ident info v autospacing)
      in if should_emit (s_logOverride st) (g_logVerbosity st) info v
         then sink @ [(m_sstr s @ message, ident)]
         else sink)"

text \<open>
  Modelled from the spec: what \<open>override\<close> does besides computing. Section 4.1 calls it a
  "mutex-guarded write" under the "single, non-reentrant lock, held only for map access".
\<close>

definition override_events :: "type_info \<Rightarrow> event list" where
  "override_events channelKind =
     [Lock_x_logOverride, Update_s_logOverride channelKind, Unlock_x_logOverride]"

text \<open>
  Modelled from the spec: what \<open>clearOverride\<close> does besides computing; section 4.1 gives
  it the same lock, "held only for map access".
\<close>

definition clearOverride_events :: "type_info \<Rightarrow> event list" where
  "clearOverride_events channelKind =
     [Lock_x_logOverride, Update_s_logOverride channelKind, Unlock_x_logOverride]"

section \<open>Threads and the two locks\<close>

text \<open>
  Each thread runs the events of its operations one after the other, and the threads
  interleave. Neither \<open>std::mutex\<close> nor the spin lock is re-entrant: a thread can lock
  one only while no thread, itself included, holds it, and only its holder unlocks it.
  A thread that cannot perform its next event waits.
\<close>

record config =
  owner_x_logOverride :: "thread_id option"
  owner_s_lock :: "thread_id option"
  program :: "thread_id \<Rightarrow> event list"

fun perform :: "event \<Rightarrow> thread_id \<Rightarrow> config \<Rightarrow> config option" where
  "perform Lock_x_logOverride t c =
     (if owner_x_logOverride c = None then Some (c\<lparr>owner_x_logOverride := Some t\<rparr>) else None)"
| "perform Unlock_x_logOverride t c =
     (if owner_x_logOverride c = Some t then Some (c\<lparr>owner_x_logOverride := None\<rparr>) else None)"
| "perform Lock_s_lock t c =
     (if owner_s_lock c = None then Some (c\<lparr>owner_s_lock := Some t\<rparr>) else None)"
| "perform Unlock_s_lock t c =
     (if owner_s_lock c = Some t then Some (c\<lparr>owner_s_lock := None\<rparr>) else None)"
| "perform e t c = Some c"

definition step :: "config \<Rightarrow> thread_id \<Rightarrow> config option" where
  "step c t =
     (case program c t of
        [] \<Rightarrow> None
      | e # es \<Rightarrow>
          (case perform e t c of
             None \<Rightarrow> None
           | Some c' \<Rightarrow> Some (c'\<lparr>program := (program c')(t := es)\<rparr>)))"

text \<open>A schedule names the thread that makes each step.\<close>

fun run :: "config \<Rightarrow> thread_id list \<Rightarrow> config option" where
  "run c [] = Some c"
| "run c (t # ts) = (case step c t of None \<Rightarrow> None | Some c' \<Rightarrow> run c' ts)"

definition start :: "(thread_id \<Rightarrow> event list) \<Rightarrow> config" where
  "start programs =
     \<lparr>owner_x_logOverride = None, owner_s_lock = None, program = programs\<rparr>"

text \<open>
  The lock discipline of a sequence of events, for a thread that holds what \<open>m\<close> says
  when it begins: the table is accessed under \<open>x_logOverride\<close> only, no lock is taken
  while one is held, only a held lock is released, and nothing is held at the end.
\<close>

datatype holding = Nothing | Holding_x_logOverride | Holding_s_lock

fun disciplined :: "holding \<Rightarrow> event list \<Rightarrow> bool" where
  "disciplined m [] = (m = Nothing)"
| "disciplined m (Lock_x_logOverride # es) = (m = Nothing \<and> disciplined Holding_x_logOverride es)"
| "disciplined m (Unlock_x_logOverride # es) = (m = Holding_x_logOverride \<and> disciplined Nothing es)"
| "disciplined m (Lock_s_lock # es) = (m = Nothing \<and> disciplined Holding_s_lock es)"
| "disciplined m (Unlock_s_lock # es) = (m = Holding_s_lock \<and> disciplined Nothing es)"
| "disciplined m (Find_s_logOverride k # es) = (m = Holding_x_logOverride \<and> disciplined m es)"
| "disciplined m (Update_s_logOverride k # es) = (m = Holding_x_logOverride \<and> disciplined m es)"
| "disciplined m (e # es) = disciplined m es"

definition holding_of :: "config \<Rightarrow> thread_id \<Rightarrow> holding" where
  "holding_of c t =
     (if owner_x_logOverride c = Some t then Holding_x_logOverride
      else if owner_s_lock c = Some t then Holding_s_lock
      else Nothing)"

text \<open>What every configuration that the threads can reach satisfies.\<close>

definition lock_invariant :: "config \<Rightarrow> bool" where
  "lock_invariant c =
     (\<forall>t. disciplined (holding_of c t) (program c t) \<and>
          \<not> (owner_x_logOverride c = Some t \<and> owner_s_lock c = Some t))"

section \<open>Example hosts\<close>

text \<open>
  Concrete hosts and colours at which the theorems below are evaluated. On
  \<open>linux_host\<close> the system's state is the name it holds for each thread; it accepts a
  new name of at most 15 bytes and leaves the old one otherwise, and \<open>strftime\<close>
  succeeds. \<open>other_host\<close> has no native naming, and its \<open>strftime\<close> fails and leaves
  the buffer as it found it.
\<close>

definition sample_colours :: colours where
  "sample_colours = \<lparr>EthReset = ''[0m'', EthBlack = ''[30m'', EthNavy = ''[34m'',
            EthTeal = ''[36m'', EthViolet = ''[35m''\<rparr>"

definition linux_host :: "(thread_id \<Rightarrow> string) host" where
  "linux_host =
     \<lparr>platform = Linux,
      pthread_setname_np = (\<lambda>os t n. if length n < 16 then os(t := n) else os),
      pthread_getname_np = (\<lambda>os t len. os t @ replicate (128 - length (os t)) NUL),
      system_clock_now = 1700000000,
      strftime_localtime = (\<lambda>size fmt t. (8, ''12:34:56'' @ replicate 16 NUL))\<rparr>"

definition other_host :: "unit host" where
  "other_host =
     \<lparr>platform = Other,
      pthread_setname_np = (\<lambda>os t n. os),
      pthread_getname_np = (\<lambda>os t len. []),
      system_clock_now = 1700000000,
      strftime_localtime = (\<lambda>size fmt t. (0, replicate 24 (CHR ''?'')))\<rparr>"

text \<open>
  A state of \<open>linux_host\<close> in which thread 1 has named itself and entered two contexts.
\<close>

definition worker_state :: "(thread_id \<Rightarrow> string) log_state" where
  "worker_state =
     ThreadContext_push 1 ''db-query'' (ThreadContext_push 1 ''request-42''
       (setThreadName linux_host 1 (String_literal ''worker-1'')
          (initial_state 0 (\<lambda>t. ''nsfminer''))))"

text \<open>
  Two threads: thread 0 makes an emitting log statement and posts it to the default
  sink, thread 1 overrides a channel and then makes a log statement on it.
\<close>

definition two_threads :: "thread_id \<Rightarrow> event list" where
  "two_threads =
     (\<lambda>t. [])
       (0 := snd (LogOutputStreamBase_ctor sample_colours other_host 0 (initial_state 0 ())
                   ''  i'' 7 1 True)
             @ snd (simpleDebugOut False ''line'' []),
        1 := override_events 7
             @ snd (LogOutputStreamBase_ctor sample_colours other_host 1
                      (override 7 True (initial_state 0 ())) ''  D'' 7 9 True))"

section \<open>Auxiliary facts\<close>

subsection \<open>Strings, the decision and the constructor\<close>

lemma c_string_update_0: "c_string (buf[0 := NUL]) = []"
  by (cases buf) (simp_all add: c_string_def)

lemma join_loop_concat: "join_loop p s ret = ret @ concat (map (\<lambda>i. p @ i) s)"
  by (induction s arbitrary: ret) simp_all

lemma join_concat: "ThreadLocalLogContext_join p s = concat (map (\<lambda>i. p @ i) s)"
  by (simp add: ThreadLocalLogContext_join_def join_loop_concat)

lemma should_emit_case:
  "should_emit tbl g info v =
     (case tbl info of Some forced \<Rightarrow> forced | None \<Rightarrow> sint v \<le> sint g)"
  by (simp add: should_emit_def Let_def split: option.split)

text \<open>
  A channel declares its verbosity as an \<open>int\<close>; it reaches the constructor as an
  \<open>unsigned\<close> and the cast reads the same \<open>int\<close> back.
\<close>

lemma should_emit_int:
  assumes "- (2 ^ 31) \<le> C" "C < 2 ^ 31" "- (2 ^ 31) \<le> V" "V < 2 ^ 31" "tbl K = None"
  shows "should_emit tbl (word_of_int V) K (word_of_int C) = (C \<le> V)"
  using assms
  by (simp add: should_emit_def Let_def sint_sbintrunc' signed_take_bit_int_eq_self)

lemma ctor_suppressed:
  "\<not> should_emit (s_logOverride st) (g_logVerbosity st) info v \<Longrightarrow>
   LogOutputStreamBase_ctor col h self st ident info v a =
     (\<lparr>m_autospacing = a, m_verbosity = v, m_sstr = []\<rparr>,
      [Lock_x_logOverride, Find_s_logOverride info, Unlock_x_logOverride])"
  by (simp add: LogOutputStreamBase_ctor_def Guard_x_logOverride_def)

lemma ctor_emitting:
  "should_emit (s_logOverride st) (g_logVerbosity st) info v \<Longrightarrow>
   LogOutputStreamBase_ctor col h self st ident info v a =
     (\<lparr>m_autospacing = a, m_verbosity = v,
       m_sstr = ident @ c_begin col
                @ (if fst (strftime_localtime h 24 ''%X'' (system_clock_now h)) = 0 then []
                   else c_string (snd (strftime_localtime h 24 ''%X'' (system_clock_now h))))
                @ c_sep1 col
                @ getThreadName h self st
                @ concat (map (\<lambda>i. c_sep2 col @ i) (logContexts st self))
                @ c_end col\<rparr>,
      [Lock_x_logOverride, Find_s_logOverride info, Call_system_clock_now,
       Call_strftime, Write_m_sstr, Write_m_sstr, Write_m_sstr, Write_m_sstr,
       Call_getThreadName, Write_m_sstr, Call_ThreadContext_join, Write_m_sstr,
       Write_m_sstr, Unlock_x_logOverride])"
  by (simp add: LogOutputStreamBase_ctor_def Guard_x_logOverride_def Let_def put_def call_def
      ThreadContext_join_def join_concat c_string_update_0 split: prod.split)

lemma pop_push: "ThreadContext_pop self (ThreadContext_push self n st) = Inr st"
  by (simp add: ThreadContext_pop_def ThreadContext_push_def ThreadLocalLogContext_pop_def
      ThreadLocalLogContext_push_def push_back_def pop_back_def)

lemma takeWhile_update_stop:
  "\<not> P z \<Longrightarrow> takeWhile P (xs[n := z]) = takeWhile P (take n xs)"
proof (induction xs arbitrary: n)
  case Nil
  then show ?case by simp
next
  case (Cons x xs)
  then show ?case by (cases n) simp_all
qed

lemma c_string_terminated: "c_string (buf[n := NUL]) = c_string (take n buf)"
  by (simp add: c_string_def takeWhile_update_stop)

lemma c_string_prefix: "prefix (c_string buf) buf"
  by (simp add: c_string_def takeWhile_is_prefix)

lemma c_string_take_prefix: "prefix (c_string (take n buf)) (c_string buf)"
  unfolding c_string_def
proof (induction buf arbitrary: n)
  case Nil
  then show ?case by simp
next
  case (Cons x xs)
  then show ?case by (cases n) simp_all
qed

lemma c_string_take_length: "length (c_string (take n buf)) \<le> n"
proof -
  have "length (c_string (take n buf)) \<le> length (take n buf)"
    using c_string_prefix [of "take n buf"] by (rule prefix_length_le)
  then show ?thesis by simp
qed

lemma getThreadName_native:
  "platform h = Linux \<or> platform h = Apple \<Longrightarrow>
   getThreadName h self st = c_string (take 127 (pthread_getname_np h (os_threads st) self 127))"
  by (auto simp add: getThreadName_def Let_def c_string_terminated)

lemma c_string_no_NUL: "NUL \<notin> set s \<Longrightarrow> c_string (s @ NUL # rest) = s"
  by (induction s) (auto simp add: c_string_def)

lemma string_at_literal: "NUL \<notin> set s \<Longrightarrow> string_at mem (String_literal s) = s"
  by (simp add: string_at_def c_string_no_NUL)

lemma override_fields:
  "g_logVerbosity (override K b st) = g_logVerbosity st"
  "g_logVerbosity (clearOverride K st) = g_logVerbosity st"
  "s_logOverride (override K b st) K = Some b"
  "s_logOverride (clearOverride K st) K = None"
  by (simp_all add: override_def clearOverride_def)

lemma ctor_writes_iff:
  "(Write_m_sstr \<in> set (snd (LogOutputStreamBase_ctor col h self st ident info v a))) =
     should_emit (s_logOverride st) (g_logVerbosity st) info v"
  by (cases "should_emit (s_logOverride st) (g_logVerbosity st) info v")
     (simp_all add: ctor_emitting ctor_suppressed)

lemma log_statement_sink:
  "log_statement col h self st ident info v a message sink =
     (if should_emit (s_logOverride st) (g_logVerbosity st) info v
      then sink @ [(m_sstr (fst (LogOutputStreamBase_ctor col h self st ident info v a)) @ message,
                    ident)]
      else sink)"
  by (simp add: log_statement_def Let_def)

subsection \<open>The lock discipline is kept by every step\<close>

lemma disciplined_append:
  "disciplined m p \<Longrightarrow> disciplined Nothing q \<Longrightarrow> disciplined m (p @ q)"
  by (induction m p rule: disciplined.induct) simp_all

lemma disciplined_ctor:
  "disciplined Nothing (snd (LogOutputStreamBase_ctor col h self st ident info v a))"
  by (cases "should_emit (s_logOverride st) (g_logVerbosity st) info v")
     (simp_all add: ctor_emitting ctor_suppressed)

lemma disciplined_simpleDebugOut: "disciplined Nothing (snd (simpleDebugOut win32 s cerr))"
  by (simp add: simpleDebugOut_def SpinGuard_s_lock_def)

lemma lock_invariant_start:
  "(\<And>t. disciplined Nothing (programs t)) \<Longrightarrow> lock_invariant (start programs)"
  by (simp add: lock_invariant_def start_def holding_of_def)

lemma lock_invariant_step:
  assumes i: "lock_invariant c" and s: "step c t = Some c'"
  shows "lock_invariant c'"
proof -
  obtain e es where p: "program c t = e # es"
    using s by (cases "program c t") (simp_all add: step_def)
  obtain c1 where c1: "perform e t c = Some c1" and c': "c' = c1\<lparr>program := (program c1)(t := es)\<rparr>"
    using s p by (cases "perform e t c") (simp_all add: step_def)
  have dt: "disciplined (holding_of c t) (e # es)"
    using i p by (simp add: lock_invariant_def) (metis)
  have nb: "\<And>u. \<not> (owner_x_logOverride c = Some u \<and> owner_s_lock c = Some u)"
    using i by (simp add: lock_invariant_def)
  have du: "\<And>u. disciplined (holding_of c u) (program c u)"
    using i by (simp add: lock_invariant_def)
  show ?thesis
    unfolding lock_invariant_def
  proof (intro allI)
    fix u
    show "disciplined (holding_of c' u) (program c' u) \<and>
          \<not> (owner_x_logOverride c' = Some u \<and> owner_s_lock c' = Some u)"
      using dt c1 c' nb [of u] nb [of t] du [of u]
      by (cases e) (auto simp add: holding_of_def split: if_splits)
  qed
qed

lemma lock_invariant_run:
  "lock_invariant c \<Longrightarrow> run c sched = Some c' \<Longrightarrow> lock_invariant c'"
proof (induction sched arbitrary: c)
  case Nil
  then show ?case by simp
next
  case (Cons t ts)
  then show ?case
    by (cases "step c t") (auto dest: lock_invariant_step)
qed

lemma disciplined_head:
  "disciplined m (e # es) \<Longrightarrow> m \<noteq> Nothing \<Longrightarrow>
   e \<noteq> Lock_x_logOverride \<and> e \<noteq> Lock_s_lock \<and>
   (e = Unlock_x_logOverride \<longrightarrow> m = Holding_x_logOverride) \<and>
   (e = Unlock_s_lock \<longrightarrow> m = Holding_s_lock)"
  by (cases e) auto

lemma holder_can_step:
  assumes i: "lock_invariant c" and h: "holding_of c u \<noteq> Nothing"
  shows "step c u \<noteq> None"
proof -
  have d: "disciplined (holding_of c u) (program c u)"
    using i by (simp add: lock_invariant_def)
  then obtain e es where p: "program c u = e # es"
    using h by (cases "program c u") simp_all
  have "perform e u c \<noteq> None"
    using disciplined_head [of "holding_of c u" e es] d p h
    by (cases e) (auto simp add: holding_of_def split: if_splits)
  then show ?thesis
    using p by (auto simp add: step_def)
qed

lemma free_can_step:
  assumes i: "lock_invariant c"
    and n: "owner_x_logOverride c = None" "owner_s_lock c = None"
    and p: "program c t \<noteq> []"
  shows "step c t \<noteq> None"
proof -
  have h: "holding_of c t = Nothing"
    using n by (simp add: holding_of_def)
  have d: "disciplined Nothing (program c t)"
    using i h by (simp add: lock_invariant_def) (metis)
  obtain e es where q: "program c t = e # es"
    using p by (cases "program c t") simp_all
  have "perform e t c \<noteq> None"
    using d q n by (cases e) auto
  then show ?thesis
    using q by (auto simp add: step_def)
qed

lemma progress:
  assumes i: "lock_invariant c" and p: "program c t \<noteq> []"
  shows "\<exists>u. step c u \<noteq> None"
proof (cases "owner_x_logOverride c")
  case (Some u)
  then have "holding_of c u \<noteq> Nothing" by (simp add: holding_of_def)
  then show ?thesis using i holder_can_step by blast
next
  case None
  show ?thesis
  proof (cases "owner_s_lock c")
    case (Some u)
    then have "holding_of c u \<noteq> Nothing" using None by (simp add: holding_of_def)
    then show ?thesis using i holder_can_step by blast
  next
    case n: None
    show ?thesis using free_can_step [OF i None n p] by blast
  qed
qed

lemma holder_releases:
  "lock_invariant c \<Longrightarrow> owner_x_logOverride c = Some u \<Longrightarrow>
   \<exists>k c'. run c (replicate k u) = Some c' \<and> owner_x_logOverride c' = None"
proof (induction "length (program c u)" arbitrary: c rule: less_induct)
  case less
  have h: "holding_of c u = Holding_x_logOverride"
    using less.prems(2) by (simp add: holding_of_def)
  have d: "disciplined Holding_x_logOverride (program c u)"
    using less.prems(1) h by (simp add: lock_invariant_def) (metis)
  then obtain e es where p: "program c u = e # es"
    by (cases "program c u") simp_all
  show ?case
  proof (cases "e = Unlock_x_logOverride")
    case True
    then have "run c (replicate 1 u) = Some (c\<lparr>owner_x_logOverride := None,
                 program := (program c)(u := es)\<rparr>)"
      using p less.prems(2) by (simp add: step_def)
    then show ?thesis by (metis select_convs(1) surjective update_convs(1) update_convs(3))
  next
    case False
    have "step c u \<noteq> None"
      using less.prems(1) h by (intro holder_can_step) simp_all
    then obtain c1 where s: "step c u = Some c1"
      by (cases "step c u") simp_all
    have o: "owner_x_logOverride c1 = Some u" and l: "program c1 u = es"
      using s p d False less.prems(2) by (cases e; auto simp add: step_def)+
    have i: "lock_invariant c1"
      using less.prems(1) s by (rule lock_invariant_step)
    have "length (program c1 u) < length (program c u)"
      using l p by simp
    then obtain k c' where "run c1 (replicate k u) = Some c'" "owner_x_logOverride c' = None"
      using less.hyps [of c1] i o by blast
    then have "run c (replicate (Suc k) u) = Some c' \<and> owner_x_logOverride c' = None"
      using s by simp
    then show ?thesis by blast
  qed
qed

lemma waits_for_holder:
  "owner_x_logOverride c = Some u \<Longrightarrow> program c t = Lock_x_logOverride # es \<Longrightarrow> step c t = None"
  by (simp add: step_def)

subsection \<open>The two example threads\<close>

lemma two_threads_0:
  "two_threads 0 =
     [Lock_x_logOverride, Find_s_logOverride 7, Call_system_clock_now, Call_strftime,
      Write_m_sstr, Write_m_sstr, Write_m_sstr, Write_m_sstr, Call_getThreadName, Write_m_sstr,
      Call_ThreadContext_join, Write_m_sstr, Write_m_sstr, Unlock_x_logOverride,
      Lock_s_lock, Write_cerr, Unlock_s_lock]"
proof -
  have d: "should_emit (s_logOverride (initial_state 0 ())) (g_logVerbosity (initial_state 0 ())) 7 1"
    by (simp add: should_emit_case initial_state_def ThreadLocalLogName_ctor_def)
  show ?thesis
    by (simp add: two_threads_def ctor_emitting [OF d] simpleDebugOut_def SpinGuard_s_lock_def)
qed

lemma two_threads_1:
  "two_threads (Suc 0) =
     [Lock_x_logOverride, Update_s_logOverride 7, Unlock_x_logOverride,
      Lock_x_logOverride, Find_s_logOverride 7, Call_system_clock_now, Call_strftime,
      Write_m_sstr, Write_m_sstr, Write_m_sstr, Write_m_sstr, Call_getThreadName, Write_m_sstr,
      Call_ThreadContext_join, Write_m_sstr, Write_m_sstr, Unlock_x_logOverride]"
proof -
  have d: "should_emit (s_logOverride (override 7 True (initial_state 0 ())))
             (g_logVerbosity (override 7 True (initial_state 0 ()))) 7 9"
    by (simp add: should_emit_case override_def)
  show ?thesis
    by (simp add: two_threads_def ctor_emitting [OF d] override_events_def)
qed

lemma two_threads_rest: "t \<noteq> 0 \<Longrightarrow> t \<noteq> Suc 0 \<Longrightarrow> two_threads t = []"
  by (simp add: two_threads_def)

lemma two_threads_disciplined: "disciplined Nothing (two_threads t)"
proof -
  consider "t = 0" | "t = Suc 0" | "t \<noteq> 0" "t \<noteq> Suc 0" by blast
  then show ?thesis
    by cases (simp_all add: two_threads_0 two_threads_1 two_threads_rest)
qed

lemma two_threads_run:
  "run (start two_threads) [0, 0] =
     Some \<lparr>owner_x_logOverride = Some 0, owner_s_lock = None,
           program = two_threads(0 := drop 2 (two_threads 0))\<rparr>"
  by (simp add: start_def step_def two_threads_0)

section \<open>The emit decision (C1, C2, C10)\<close>

text \<open>
  C1. A log statement on a channel of identity \<open>info\<close> and verbosity \<open>v\<close> emits exactly
  when the entry of the override table for \<open>info\<close>, if there is one, is true, and, if
  there is none, when \<open>v\<close> is at most the global verbosity (both read as \<open>int\<close>). The
  constructor writes the prefix exactly when the decision is to emit.
\<close>

theorem emit_decision_rule:
  "should_emit (s_logOverride st) (g_logVerbosity st) info v =
     (case s_logOverride st info of
        Some forced \<Rightarrow> forced
      | None \<Rightarrow> sint v \<le> sint (g_logVerbosity st)) \<and>
   (Write_m_sstr \<in> set (snd (LogOutputStreamBase_ctor col h self st ident info v a))) =
     should_emit (s_logOverride st) (g_logVerbosity st) info v"
  by (cases "should_emit (s_logOverride st) (g_logVerbosity st) info v")
     (simp_all add: ctor_emitting ctor_suppressed should_emit_case)

text \<open>
  C2. Whatever the global verbosity \<open>V\<close> and the channel verbosity \<open>C\<close>: after
  \<open>override K True\<close> a statement on \<open>K\<close> emits, after \<open>override K False\<close> it does
  not, and after \<open>clearOverride K\<close> (also when it undoes an override) it emits exactly
  when \<open>C \<le> V\<close>. This holds of the decision, of the constructor, which writes the
  prefix or leaves the buffer alone accordingly, and of the statement as a whole, which
  hands one line to the sink or none.
\<close>

theorem override_forces_decision:
  "should_emit (s_logOverride (override K True st)) V K C \<and>
   \<not> should_emit (s_logOverride (override K False st)) V K C \<and>
   should_emit (s_logOverride (clearOverride K st)) V K C = (sint C \<le> sint V) \<and>
   should_emit (s_logOverride (clearOverride K (override K b st))) V K C = (sint C \<le> sint V) \<and>
   Write_m_sstr \<in> set (snd (LogOutputStreamBase_ctor col h self
                               (override K True (st\<lparr>g_logVerbosity := V\<rparr>)) ident K C a)) \<and>
   length (log_statement col h self (override K True (st\<lparr>g_logVerbosity := V\<rparr>))
             ident K C a message sink) = Suc (length sink) \<and>
   Write_m_sstr \<notin> set (snd (LogOutputStreamBase_ctor col h self
                               (override K False (st\<lparr>g_logVerbosity := V\<rparr>)) ident K C a)) \<and>
   log_statement col h self (override K False (st\<lparr>g_logVerbosity := V\<rparr>))
     ident K C a message sink = sink \<and>
   (Write_m_sstr \<in> set (snd (LogOutputStreamBase_ctor col h self
                               (clearOverride K (st\<lparr>g_logVerbosity := V\<rparr>)) ident K C a)))
     = (sint C \<le> sint V) \<and>
   (Write_m_sstr \<in> set (snd (LogOutputStreamBase_ctor col h self
                               (clearOverride K (override K b (st\<lparr>g_logVerbosity := V\<rparr>)))
                               ident K C a)))
     = (sint C \<le> sint V) \<and>
   (length (log_statement col h self (clearOverride K (override K b (st\<lparr>g_logVerbosity := V\<rparr>)))
              ident K C a message sink) = Suc (length sink))
     = (sint C \<le> sint V)"
  by (simp add: ctor_writes_iff log_statement_sink should_emit_case override_fields)

text \<open>
  C10. At process start the global verbosity is 5 and the override table is empty, so a
  statement on any channel emits exactly when the channel's verbosity is at most 5.
\<close>

theorem initial_verbosity_threshold:
  "g_logVerbosity (initial_state m os0) = 5 \<and>
   s_logOverride (initial_state m os0) info = None \<and>
   should_emit (s_logOverride (initial_state m os0)) (g_logVerbosity (initial_state m os0)) info v
     = (sint v \<le> 5) \<and>
   (Write_m_sstr \<in>
      set (snd (LogOutputStreamBase_ctor col h self (initial_state m os0) ident info v a)))
     = (sint v \<le> 5)"
proof -
  have g: "g_logVerbosity (initial_state m os0) = 5"
    by (simp add: initial_state_def ThreadLocalLogName_ctor_def)
  have t: "s_logOverride (initial_state m os0) info = None"
    by (simp add: initial_state_def ThreadLocalLogName_ctor_def)
  have e: "should_emit (s_logOverride (initial_state m os0))
             (g_logVerbosity (initial_state m os0)) info v = (sint v \<le> 5)"
    by (simp add: should_emit_case g t)
  show ?thesis
    using g t e
    by (cases "sint v \<le> 5") (simp_all add: ctor_emitting ctor_suppressed)
qed

section \<open>The context stack (C3, C4)\<close>

text \<open>
  C3. \<open>join p\<close> is the concatenation, outermost entry first, of \<open>p\<close> followed by the
  entry, for each entry of the stack; it is empty on the empty stack; it leaves the
  state as it is. From the empty stack, after \<open>push "a"\<close> and \<open>push "b"\<close>,
  \<open>join "/"\<close> is \<open>/a/b\<close>, and after one \<open>pop\<close> it is \<open>/a\<close>.
\<close>

theorem join_concatenates:
  "ThreadLocalLogContext_join p s = concat (map (\<lambda>i. p @ i) s) \<and>
   ThreadLocalLogContext_join p [] = [] \<and>
   ThreadContext_join self p st = (concat (map (\<lambda>i. p @ i) (logContexts st self)), st) \<and>
   fst (ThreadContext_join self ''/''
         (ThreadContext_push self ''b'' (ThreadContext_push self ''a'' (initial_state m os0))))
     = ''/a/b'' \<and>
   (case ThreadContext_pop self
           (ThreadContext_push self ''b'' (ThreadContext_push self ''a'' (initial_state m os0))) of
      Inl e \<Rightarrow> False
    | Inr st' \<Rightarrow> fst (ThreadContext_join self ''/'' st') = ''/a'')"
  by (simp add: join_concat ThreadContext_join_def pop_push)
     (simp add: ThreadContext_push_def ThreadLocalLogContext_push_def push_back_def
       initial_state_def ThreadLocalLogName_ctor_def)

text \<open>
  C4. When the calling thread's stack is not empty, \<open>pop\<close> removes its last (innermost)
  entry and changes nothing else, so that \<open>pop\<close> after \<open>push\<close> gives the state back;
  nothing guards the call, and on an empty stack it is the undefined behaviour of
  \<open>pop_back\<close>.
\<close>

theorem pop_removes_innermost:
  "(logContexts st self \<noteq> [] \<longrightarrow>
      ThreadContext_pop self st =
        Inr (st\<lparr>logContexts := (logContexts st)(self := butlast (logContexts st self))\<rparr>)) \<and>
   (logContexts st self = [] \<longrightarrow> ThreadContext_pop self st = Inl UndefinedBehaviour) \<and>
   ThreadContext_pop self (ThreadContext_push self n st) = Inr st"
  by (simp add: pop_push)
     (simp add: ThreadContext_pop_def ThreadLocalLogContext_pop_def pop_back_def)

theorem pop_removes_innermost_witness:
  "logContexts (ThreadContext_push 1 ''b'' (ThreadContext_push 1 ''a'' (initial_state 0 ()))) 1
     = [''a'', ''b''] \<and>
   ThreadContext_pop 1 (ThreadContext_push 1 ''b'' (ThreadContext_push 1 ''a'' (initial_state 0 ())))
     = Inr (ThreadContext_push 1 ''a'' (initial_state 0 ())) \<and>
   logContexts (initial_state 0 ()) 1 = [] \<and>
   ThreadContext_pop 1 (initial_state 0 ()) = Inl UndefinedBehaviour"
  using pop_removes_innermost [of "initial_state 0 ()" 1 "''a''"]
        pop_removes_innermost [of "ThreadContext_push 1 ''a'' (initial_state 0 ())" 1 "''b''"]
  by (simp add: ThreadContext_push_def ThreadLocalLogContext_push_def push_back_def
       initial_state_def ThreadLocalLogName_ctor_def)

section \<open>The constructor of a log statement (C5, C6, C8, C9)\<close>

text \<open>
  C5. When the decision is not to emit, the constructor leaves the prefix buffer empty
  and does nothing between locking and unlocking but look the channel up in the override
  table: no clock, thread-name or context call is made; and the sink receives nothing
  for the statement.
\<close>

theorem suppressed_statement_does_nothing:
  "\<not> should_emit (s_logOverride st) (g_logVerbosity st) info v \<Longrightarrow>
   m_sstr (fst (LogOutputStreamBase_ctor col h self st ident info v a)) = [] \<and>
   snd (LogOutputStreamBase_ctor col h self st ident info v a) =
     [Lock_x_logOverride, Find_s_logOverride info, Unlock_x_logOverride] \<and>
   log_statement col h self st ident info v a message sink = sink"
  by (simp add: ctor_suppressed log_statement_def)

theorem suppressed_statement_does_nothing_witness:
  "\<not> should_emit (s_logOverride (initial_state 0 ())) (g_logVerbosity (initial_state 0 ())) 7 9 \<and>
   m_sstr (fst (LogOutputStreamBase_ctor sample_colours other_host 0 (initial_state 0 ())
                  ''  D'' 7 9 True)) = [] \<and>
   snd (LogOutputStreamBase_ctor sample_colours other_host 0 (initial_state 0 ()) ''  D'' 7 9 True) =
     [Lock_x_logOverride, Find_s_logOverride 7, Unlock_x_logOverride] \<and>
   log_statement sample_colours other_host 0 (initial_state 0 ()) ''  D'' 7 9 True ''hello'' [] = []"
proof -
  have d: "\<not> should_emit (s_logOverride (initial_state 0 ())) (g_logVerbosity (initial_state 0 ())) 7 9"
    by (simp add: should_emit_case initial_state_def ThreadLocalLogName_ctor_def)
  show ?thesis
    using d suppressed_statement_does_nothing [OF d, of sample_colours other_host 0 "''  D''" True
        "''hello''" "[]"]
    by simp
qed

text \<open>
  C6. When \<open>strftime\<close> returns 0 in an emitting statement, the time field of the prefix
  is empty, the other fields are as usual and the prefix is written: the constructor
  has no failing result.
\<close>

theorem strftime_failure_empty_time:
  "should_emit (s_logOverride st) (g_logVerbosity st) info v \<Longrightarrow>
   fst (strftime_localtime h 24 ''%X'' (system_clock_now h)) = 0 \<Longrightarrow>
   m_sstr (fst (LogOutputStreamBase_ctor col h self st ident info v a)) =
     ident @ c_begin col @ [] @ c_sep1 col @ getThreadName h self st
     @ ThreadLocalLogContext_join (c_sep2 col) (logContexts st self) @ c_end col \<and>
   Write_m_sstr \<in> set (snd (LogOutputStreamBase_ctor col h self st ident info v a))"
  by (simp add: ctor_emitting join_concat)

theorem strftime_failure_empty_time_witness:
  "should_emit (s_logOverride (initial_state 0 ())) (g_logVerbosity (initial_state 0 ())) 7 1 \<and>
   strftime_localtime other_host 24 ''%X'' (system_clock_now other_host)
     = (0, replicate 24 (CHR ''?'')) \<and>
   m_sstr (fst (LogOutputStreamBase_ctor sample_colours other_host 0 (initial_state 0 ())
                  ''  i'' 7 1 True))
     = ''  i  [35m[0m[30m|[34mmain[0m  ''"
proof -
  have d: "should_emit (s_logOverride (initial_state 0 ())) (g_logVerbosity (initial_state 0 ())) 7 1"
    by (simp add: should_emit_case initial_state_def ThreadLocalLogName_ctor_def)
  have f: "fst (strftime_localtime other_host 24 ''%X'' (system_clock_now other_host)) = 0"
    by (simp add: other_host_def)
  show ?thesis
    using d strftime_failure_empty_time [OF d f, of sample_colours 0 "''  i''" True]
    by (simp add: other_host_def sample_colours_def c_begin_def c_sep1_def c_sep2_def c_end_def
        getThreadName_def string_at_def c_string_def NUL_def ThreadLocalLogContext_join_def
        initial_state_def ThreadLocalLogName_ctor_def)
qed

text \<open>
  C8. The prefix of an emitting statement is, in this order: the channel's label
  \<open>_id\<close>, the separator \<open>c_begin\<close>, the time that \<open>strftime\<close> wrote for the format
  \<open>%X\<close> and the local time (empty when it failed), the separator \<open>c_sep1\<close>, the thread
  name, every context from the outermost on, each after the separator \<open>c_sep2\<close>, and
  the end marker \<open>c_end\<close>.
\<close>

theorem prefix_assembly_order:
  "should_emit (s_logOverride st) (g_logVerbosity st) info v \<Longrightarrow>
   m_sstr (fst (LogOutputStreamBase_ctor col h self st ident info v a)) =
     ident @ c_begin col
     @ (if fst (strftime_localtime h 24 ''%X'' (system_clock_now h)) = 0 then []
        else c_string (snd (strftime_localtime h 24 ''%X'' (system_clock_now h))))
     @ c_sep1 col
     @ getThreadName h self st
     @ concat (map (\<lambda>i. c_sep2 col @ i) (logContexts st self))
     @ c_end col"
  by (simp add: ctor_emitting)

theorem prefix_assembly_order_witness:
  "should_emit (s_logOverride worker_state) (g_logVerbosity worker_state) 7 1 \<and>
   m_sstr (fst (LogOutputStreamBase_ctor sample_colours linux_host 1 worker_state ''  i'' 7 1 True))
     = ''  i'' @ ''  [35m'' @ ''12:34:56'' @ ''[0m[30m|[34m'' @ ''worker-1''
       @ (''[0m[30m|[36m'' @ ''request-42'') @ (''[0m[30m|[36m'' @ ''db-query'') @ ''[0m  ''"
proof -
  have d: "should_emit (s_logOverride worker_state) (g_logVerbosity worker_state) 7 1"
    by (simp add: should_emit_case worker_state_def ThreadContext_push_def setThreadName_def
        linux_host_def initial_state_def ThreadLocalLogName_ctor_def)
  show ?thesis
    using d prefix_assembly_order [OF d, of sample_colours linux_host 1 "''  i''" True]
    by (simp add: worker_state_def ThreadContext_push_def ThreadLocalLogContext_push_def
        push_back_def setThreadName_def getThreadName_native string_at_def c_string_def NUL_def
        linux_host_def sample_colours_def c_begin_def c_sep1_def c_sep2_def c_end_def
        initial_state_def ThreadLocalLogName_ctor_def)
qed

text \<open>
  C9, as the code has it. The table is looked up and written under \<open>x_logOverride\<close>
  only. The mutex is not re-entrant, and no function of the file locks it, or the
  sink's spin lock, while it holds either: it is never nested in another lock. An
  override operation holds it for its map access. A log statement locks it once, first
  in the constructor, and unlocks it once, last: it is held over the lookup and, in an
  emitting statement, over the clock, \<open>strftime\<close>, thread-name and context calls and
  the writes of the prefix as well. A thread that wants the mutex while another holds it
  waits; the holder can always go on and, running alone, releases it; and as long as a
  thread has something left to do some thread can make a step: there is no deadlock.
\<close>

theorem lock_held_for_whole_constructor:
  "(let tr = snd (LogOutputStreamBase_ctor col h self st ident info v a) in
      tr = [Lock_x_logOverride] @ held_events tr @ [Unlock_x_logOverride] \<and>
      Lock_x_logOverride \<notin> set (held_events tr) \<and>
      Unlock_x_logOverride \<notin> set (held_events tr) \<and>
      Find_s_logOverride info \<in> set (held_events tr) \<and>
      (\<not> should_emit (s_logOverride st) (g_logVerbosity st) info v \<longrightarrow>
         held_events tr = [Find_s_logOverride info]) \<and>
      (should_emit (s_logOverride st) (g_logVerbosity st) info v \<longrightarrow>
         Call_system_clock_now \<in> set (held_events tr) \<and>
         Call_strftime \<in> set (held_events tr) \<and>
         Call_getThreadName \<in> set (held_events tr) \<and>
         Call_ThreadContext_join \<in> set (held_events tr) \<and>
         Write_m_sstr \<in> set (held_events tr)) \<and>
      disciplined Nothing tr) \<and>
   held_events (override_events K) = [Update_s_logOverride K] \<and>
   held_events (clearOverride_events K) = [Update_s_logOverride K] \<and>
   disciplined Nothing (override_events K) \<and>
   disciplined Nothing (clearOverride_events K) \<and>
   disciplined Nothing (snd (simpleDebugOut win32 s cerr)) \<and>
   (disciplined Nothing p \<and> disciplined Nothing q \<longrightarrow> disciplined Nothing (p @ q)) \<and>
   ((\<forall>t. disciplined Nothing (programs t)) \<and> run (start programs) sched = Some c \<longrightarrow>
      (\<forall>u. holding_of c u \<noteq> Nothing \<longrightarrow> step c u \<noteq> None) \<and>
      (\<forall>u. owner_x_logOverride c = Some u \<longrightarrow>
           (\<exists>k c'. run c (replicate k u) = Some c' \<and> owner_x_logOverride c' = None)) \<and>
      ((\<exists>t. program c t \<noteq> []) \<longrightarrow> (\<exists>u. step c u \<noteq> None))) \<and>
   (owner_x_logOverride c0 = Some holder \<and> program c0 waiting = Lock_x_logOverride # rest \<longrightarrow>
      step c0 waiting = None)"
proof -
  have ctor: "let tr = snd (LogOutputStreamBase_ctor col h self st ident info v a) in
      tr = [Lock_x_logOverride] @ held_events tr @ [Unlock_x_logOverride] \<and>
      Lock_x_logOverride \<notin> set (held_events tr) \<and>
      Unlock_x_logOverride \<notin> set (held_events tr) \<and>
      Find_s_logOverride info \<in> set (held_events tr) \<and>
      (\<not> should_emit (s_logOverride st) (g_logVerbosity st) info v \<longrightarrow>
         held_events tr = [Find_s_logOverride info]) \<and>
      (should_emit (s_logOverride st) (g_logVerbosity st) info v \<longrightarrow>
         Call_system_clock_now \<in> set (held_events tr) \<and>
         Call_strftime \<in> set (held_events tr) \<and>
         Call_getThreadName \<in> set (held_events tr) \<and>
         Call_ThreadContext_join \<in> set (held_events tr) \<and>
         Write_m_sstr \<in> set (held_events tr)) \<and>
      disciplined Nothing tr"
    by (cases "should_emit (s_logOverride st) (g_logVerbosity st) info v")
       (simp_all add: ctor_emitting ctor_suppressed held_events_def)
  have ops: "held_events (override_events K) = [Update_s_logOverride K]"
    "held_events (clearOverride_events K) = [Update_s_logOverride K]"
    "disciplined Nothing (override_events K)"
    "disciplined Nothing (clearOverride_events K)"
    by (simp_all add: override_events_def clearOverride_events_def held_events_def)
  have app: "disciplined Nothing p \<and> disciplined Nothing q \<longrightarrow> disciplined Nothing (p @ q)"
    by (simp add: disciplined_append)
  have conc: "(\<forall>t. disciplined Nothing (programs t)) \<and> run (start programs) sched = Some c \<longrightarrow>
      (\<forall>u. holding_of c u \<noteq> Nothing \<longrightarrow> step c u \<noteq> None) \<and>
      (\<forall>u. owner_x_logOverride c = Some u \<longrightarrow>
           (\<exists>k c'. run c (replicate k u) = Some c' \<and> owner_x_logOverride c' = None)) \<and>
      ((\<exists>t. program c t \<noteq> []) \<longrightarrow> (\<exists>u. step c u \<noteq> None))"
  proof (intro impI, elim conjE)
    assume d: "\<forall>t. disciplined Nothing (programs t)" and r: "run (start programs) sched = Some c"
    have "lock_invariant (start programs)"
      using d by (simp add: lock_invariant_start)
    then have i: "lock_invariant c"
      using r by (rule lock_invariant_run)
    have a: "\<forall>u. holding_of c u \<noteq> Nothing \<longrightarrow> step c u \<noteq> None"
      using i holder_can_step by blast
    have b: "\<forall>u. owner_x_logOverride c = Some u \<longrightarrow>
           (\<exists>k c'. run c (replicate k u) = Some c' \<and> owner_x_logOverride c' = None)"
      using i holder_releases by blast
    have c: "(\<exists>t. program c t \<noteq> []) \<longrightarrow> (\<exists>u. step c u \<noteq> None)"
      using i progress by blast
    show "(\<forall>u. holding_of c u \<noteq> Nothing \<longrightarrow> step c u \<noteq> None) \<and>
          (\<forall>u. owner_x_logOverride c = Some u \<longrightarrow>
               (\<exists>k c'. run c (replicate k u) = Some c' \<and> owner_x_logOverride c' = None)) \<and>
          ((\<exists>t. program c t \<noteq> []) \<longrightarrow> (\<exists>u. step c u \<noteq> None))"
      using a b c by (intro conjI)
  qed
  have wait: "owner_x_logOverride c0 = Some holder \<and>
              program c0 waiting = Lock_x_logOverride # rest \<longrightarrow> step c0 waiting = None"
    by (simp add: waits_for_holder)
  show ?thesis
    using ctor ops app conc wait disciplined_simpleDebugOut [of win32 s cerr]
    by (intro conjI) simp_all
qed

theorem lock_held_for_whole_constructor_witness:
  "(\<forall>t. disciplined Nothing (two_threads t)) \<and>
   (\<exists>c. run (start two_threads) [0, 0] = Some c \<and>
        holding_of c 0 = Holding_x_logOverride \<and>
        program c 1 \<noteq> [] \<and> step c 1 = None \<and> step c 0 \<noteq> None \<and>
        (\<exists>k c'. run c (replicate k 0) = Some c' \<and> owner_x_logOverride c' = None)) \<and>
   should_emit (s_logOverride (initial_state 0 ())) (g_logVerbosity (initial_state 0 ())) 7 1 \<and>
   Call_strftime \<in> set (held_events (snd (LogOutputStreamBase_ctor sample_colours other_host 0
                                          (initial_state 0 ()) ''  i'' 7 1 True))) \<and>
   \<not> should_emit (s_logOverride (initial_state 0 ())) (g_logVerbosity (initial_state 0 ())) 7 9 \<and>
   held_events (snd (LogOutputStreamBase_ctor sample_colours other_host 0
                       (initial_state 0 ()) ''  D'' 7 9 True)) = [Find_s_logOverride 7] \<and>
   disciplined Nothing (override_events 7 @ clearOverride_events 7)"
proof -
  let ?c = "\<lparr>owner_x_logOverride = Some 0, owner_s_lock = None,
             program = two_threads(0 := drop 2 (two_threads 0))\<rparr>"
  have e: "should_emit (s_logOverride (initial_state 0 ())) (g_logVerbosity (initial_state 0 ())) 7 1"
    by (simp add: should_emit_case initial_state_def ThreadLocalLogName_ctor_def)
  have n: "\<not> should_emit (s_logOverride (initial_state 0 ())) (g_logVerbosity (initial_state 0 ())) 7 9"
    by (simp add: should_emit_case initial_state_def ThreadLocalLogName_ctor_def)
  have d: "\<forall>t. disciplined Nothing (two_threads t)"
    by (simp add: two_threads_disciplined)
  have h: "holding_of ?c 0 = Holding_x_logOverride"
    by (simp add: holding_of_def)
  have b: "program ?c 1 \<noteq> []"
    by (simp add: two_threads_1)
  have w: "step ?c 1 = None"
    using lock_held_for_whole_constructor
            [of sample_colours other_host 0 "initial_state 0 ()" "''  i''" 7 1 True
                7 False "[]" "[]" "[]" "[]" two_threads "[0, 0]" ?c ?c 0 1 "tl (two_threads 1)"]
    by (simp add: two_threads_1)
  have r: "\<exists>k c'. run ?c (replicate k 0) = Some c' \<and> owner_x_logOverride c' = None"
    using lock_held_for_whole_constructor
            [of sample_colours other_host 0 "initial_state 0 ()" "''  i''" 7 1 True
                7 False "[]" "[]" "[]" "[]" two_threads "[0, 0]" ?c]
          d two_threads_run
    by simp
  have s: "step ?c 0 \<noteq> None"
    using lock_held_for_whole_constructor
            [of sample_colours other_host 0 "initial_state 0 ()" "''  i''" 7 1 True
                7 False "[]" "[]" "[]" "[]" two_threads "[0, 0]" ?c]
          d two_threads_run h
    by simp
  have t1: "Call_strftime \<in> set (held_events (snd (LogOutputStreamBase_ctor sample_colours other_host 0
                                          (initial_state 0 ()) ''  i'' 7 1 True)))"
    using lock_held_for_whole_constructor
            [of sample_colours other_host 0 "initial_state 0 ()" "''  i''" 7 1 True
                7 False "[]" "[]" "[]" "[]" two_threads "[0, 0]" ?c] e
    by (simp add: Let_def)
  have t2: "held_events (snd (LogOutputStreamBase_ctor sample_colours other_host 0
                       (initial_state 0 ()) ''  D'' 7 9 True)) = [Find_s_logOverride 7]"
    using lock_held_for_whole_constructor
            [of sample_colours other_host 0 "initial_state 0 ()" "''  D''" 7 9 True
                7 False "[]" "[]" "[]" "[]" two_threads "[0, 0]" ?c] n
    by (simp add: Let_def)
  have t3: "disciplined Nothing (override_events 7 @ clearOverride_events 7)"
    using lock_held_for_whole_constructor
            [of sample_colours other_host 0 "initial_state 0 ()" "''  D''" 7 9 True
                7 False "[]" "[]" "override_events 7" "clearOverride_events 7"
                two_threads "[0, 0]" ?c]
    by simp
  show ?thesis
    using d two_threads_run h b w r s e n t1 t2 t3 by blast
qed

text \<open>
  The reading of C9 in which the mutex is held for the map access only fails at an
  emitting statement: not every event under the lock is an access of the table.
\<close>

theorem lock_held_while_formatting_counterexample:
  "\<not> list_all is_map_access
       (held_events (snd (LogOutputStreamBase_ctor sample_colours other_host 0 (initial_state 0 ())
                            ''  i'' 7 1 True)))"
proof -
  have d: "should_emit (s_logOverride (initial_state 0 ())) (g_logVerbosity (initial_state 0 ())) 7 1"
    by (simp add: should_emit_case initial_state_def ThreadLocalLogName_ctor_def)
  show ?thesis
    by (simp add: ctor_emitting [OF d] held_events_def)
qed

section \<open>Thread names (C7)\<close>

text \<open>
  C7, as the code has it. Built for neither Linux nor Apple, \<open>getThreadName\<close> after
  \<open>setThreadName n\<close> on the same thread returns the C string found at \<open>n\<close> when it is
  read, since the slot keeps the pointer: the name given, as long as the memory at \<open>n\<close>
  is as it was, and always when \<open>n\<close> is a literal; the names of the other threads stay;
  and a thread that has set no name gets \<open>main\<close> if it is the initial thread and
  \<open><unknown>\<close> otherwise. Built for Linux or Apple, \<open>getThreadName\<close> returns what
  \<open>pthread_getname_np\<close> wrote into the buffer, up to the first NUL and 127 bytes at
  most, whatever the slot and the memory hold; \<open>setThreadName n\<close> hands the C string at
  \<open>n\<close> to \<open>pthread_setname_np\<close>, and \<open>getThreadName\<close> then returns that string or a
  prefix of it whenever what the system reports is one; a thread that has set no name
  gets what the system reports for it.
\<close>

theorem thread_name_by_platform:
  "(platform h = Other \<longrightarrow>
      getThreadName h self (setThreadName h self n st) = string_at (memory st) n \<and>
      getThreadName h self ((setThreadName h self n st)\<lparr>memory := mem'\<rparr>) = string_at mem' n \<and>
      (NUL \<notin> set s \<longrightarrow>
         getThreadName h self ((setThreadName h self (String_literal s) st)\<lparr>memory := mem'\<rparr>) = s) \<and>
      (t \<noteq> self \<longrightarrow> getThreadName h t (setThreadName h self n st) = getThreadName h t st) \<and>
      getThreadName h m (initial_state m os0) = ''main'' \<and>
      (t \<noteq> m \<longrightarrow> getThreadName h t (initial_state m os0) = ''<unknown>'')) \<and>
   (platform h = Linux \<or> platform h = Apple \<longrightarrow>
      getThreadName h self st =
        c_string (take 127 (pthread_getname_np h (os_threads st) self 127)) \<and>
      length (getThreadName h self st) \<le> 127 \<and>
      getThreadName h self (st\<lparr>ThreadLocalLogName_name := slot, memory := mem'\<rparr>) =
        getThreadName h self st \<and>
      getThreadName h t (initial_state m os0) =
        c_string (take 127 (pthread_getname_np h os0 t 127)) \<and>
      os_threads (setThreadName h self n st) =
        pthread_setname_np h (os_threads st) self (string_at (memory st) n) \<and>
      (prefix (c_string (pthread_getname_np h
                 (pthread_setname_np h (os_threads st) self (string_at (memory st) n)) self 127))
              (string_at (memory st) n)
         \<longrightarrow> prefix (getThreadName h self (setThreadName h self n st)) (string_at (memory st) n)))"
proof (intro conjI impI)
  assume o: "platform h = Other"
  show "getThreadName h self (setThreadName h self n st) = string_at (memory st) n"
    using o by (simp add: getThreadName_def setThreadName_def)
  show "getThreadName h self ((setThreadName h self n st)\<lparr>memory := mem'\<rparr>) = string_at mem' n"
    using o by (simp add: getThreadName_def setThreadName_def)
  show "getThreadName h m (initial_state m os0) = ''main''"
    using o by (simp add: getThreadName_def initial_state_def ThreadLocalLogName_ctor_def
        string_at_literal NUL_def)
  { assume "NUL \<notin> set s"
    then show "getThreadName h self
                 ((setThreadName h self (String_literal s) st)\<lparr>memory := mem'\<rparr>) = s"
      using o by (simp add: getThreadName_def setThreadName_def string_at_literal) }
  { assume "t \<noteq> self"
    then show "getThreadName h t (setThreadName h self n st) = getThreadName h t st"
      using o by (simp add: getThreadName_def setThreadName_def) }
  { assume "t \<noteq> m"
    then show "getThreadName h t (initial_state m os0) = ''<unknown>''"
      using o by (simp add: getThreadName_def initial_state_def ThreadLocalLogName_ctor_def
          string_at_literal NUL_def) }
next
  assume p: "platform h = Linux \<or> platform h = Apple"
  show "getThreadName h self st =
        c_string (take 127 (pthread_getname_np h (os_threads st) self 127))"
    using p by (rule getThreadName_native)
  show "length (getThreadName h self st) \<le> 127"
    using p by (simp add: getThreadName_native c_string_take_length)
  show "getThreadName h self (st\<lparr>ThreadLocalLogName_name := slot, memory := mem'\<rparr>) =
        getThreadName h self st"
    using p by (simp add: getThreadName_native)
  show "getThreadName h t (initial_state m os0) =
        c_string (take 127 (pthread_getname_np h os0 t 127))"
    using p by (simp add: getThreadName_native initial_state_def ThreadLocalLogName_ctor_def)
  show s: "os_threads (setThreadName h self n st) =
           pthread_setname_np h (os_threads st) self (string_at (memory st) n)"
    using p by (auto simp add: setThreadName_def)
  assume q: "prefix (c_string (pthread_getname_np h
                      (pthread_setname_np h (os_threads st) self (string_at (memory st) n)) self 127))
                    (string_at (memory st) n)"
  have "prefix (getThreadName h self (setThreadName h self n st))
          (c_string (pthread_getname_np h
             (pthread_setname_np h (os_threads st) self (string_at (memory st) n)) self 127))"
    using p by (simp add: getThreadName_native s c_string_take_prefix)
  then show "prefix (getThreadName h self (setThreadName h self n st)) (string_at (memory st) n)"
    using q by (rule prefix_order.trans)
qed

theorem thread_name_by_platform_witness:
  "platform other_host = Other \<and>
   getThreadName other_host 1
     (setThreadName other_host 1 (String_literal ''worker-1'') (initial_state 0 ()))
     = ''worker-1'' \<and>
   getThreadName other_host 1
     ((setThreadName other_host 1 (Address 64) (initial_state 0 ()))
        \<lparr>memory := (\<lambda>a. [])(64 := ''gpu'' @ [NUL] @ ''rest'')\<rparr>)
     = ''gpu'' \<and>
   getThreadName other_host 0 (initial_state 0 ()) = ''main'' \<and>
   getThreadName other_host 2 (initial_state 0 ()) = ''<unknown>'' \<and>
   platform linux_host = Linux \<and>
   getThreadName linux_host 1
     (setThreadName linux_host 1 (String_literal ''worker-1'') (initial_state 0 (\<lambda>t. ''nsfminer'')))
     = ''worker-1'' \<and>
   getThreadName linux_host 1 (initial_state 0 (\<lambda>t. ''nsfminer'')) = ''nsfminer''"
  using thread_name_by_platform
          [of other_host 1 "String_literal ''worker-1''" "initial_state 0 ()" _ "''worker-1''" 2 0 "()"]
        thread_name_by_platform
          [of other_host 1 "Address 64" "initial_state 0 ()"
              "(\<lambda>a. [])(64 := ''gpu'' @ [NUL] @ ''rest'')" "''worker-1''" 2 0 "()"]
        thread_name_by_platform
          [of linux_host 1 "String_literal ''worker-1''" "initial_state 0 (\<lambda>t. ''nsfminer'')"
              _ "''worker-1''" 1 0 "(\<lambda>t. ''nsfminer'')"]
  by (simp add: getThreadName_def setThreadName_def linux_host_def other_host_def
      initial_state_def ThreadLocalLogName_ctor_def string_at_def c_string_def NUL_def Let_def)

text \<open>
  C7 as it is stated fails on \<open>linux_host\<close> in a process called \<open>nsfminer\<close>: the
  initial thread, which set no name, is not \<open>main\<close>; another thread that set none is
  not \<open><unknown>\<close>; and after \<open>setThreadName\<close> with a name of 20 bytes, which the
  system refuses, the name is not a prefix of the one given.
\<close>

theorem thread_name_native_counterexample:
  "getThreadName linux_host 0 (initial_state 0 (\<lambda>t. ''nsfminer'')) \<noteq> ''main'' \<and>
   getThreadName linux_host 1 (initial_state 0 (\<lambda>t. ''nsfminer'')) \<noteq> ''<unknown>'' \<and>
   \<not> prefix (getThreadName linux_host 1
               (setThreadName linux_host 1 (String_literal ''cuda-worker-thread-0'')
                  (initial_state 0 (\<lambda>t. ''nsfminer''))))
             ''cuda-worker-thread-0''"
  by (simp add: getThreadName_def setThreadName_def linux_host_def initial_state_def
      ThreadLocalLogName_ctor_def string_at_def c_string_def NUL_def Let_def)

end
